theory Spec2Isabelle
  imports Main "HOL-Library.Word" "HOL-Library.Char_ord" "HOL-Library.List_Lexorder"
begin

section \<open>Status values\<close>

text \<open>
  \<^verbatim>\<open>tensorflow::Status\<close>: an error code and a message. The message of
  \<^verbatim>\<open>errors::InvalidArgument(a, b, ...)\<close> is the concatenation of its arguments; it is
  kept here as the list of the arguments, a number standing for its decimal rendering.
\<close>

datatype Code =
    OK | CANCELLED | UNKNOWN | INVALID_ARGUMENT | DEADLINE_EXCEEDED | NOT_FOUND
  | ALREADY_EXISTS | PERMISSION_DENIED | UNAUTHENTICATED | RESOURCE_EXHAUSTED
  | FAILED_PRECONDITION | ABORTED | OUT_OF_RANGE | UNIMPLEMENTED | INTERNAL
  | UNAVAILABLE | DATA_LOSS

datatype message_part = Text string | Number int

datatype Status = Status (status_code: Code) (status_message: "message_part list")

definition Status_OK :: Status where
  "Status_OK = Status OK []"

definition errors_Internal :: "string \<Rightarrow> Status" where
  "errors_Internal msg = Status INTERNAL [Text msg]"

definition errors_InvalidArgument :: "message_part list \<Rightarrow> Status" where
  "errors_InvalidArgument parts = Status INVALID_ARGUMENT parts"

section \<open>bundle\_factory\_util.cc: WrapSessionForBatching\<close>

text \<open>
  The \<^verbatim>\<open>BatchingParameters\<close> message: the three fields the function reads
  (\<open>max_batch_size\<close>, \<open>allowed_batch_sizes\<close>, \<open>pad_variable_length_inputs\<close>) and the two
  queue settings it passes on with the message. An optional wrapper field
  (\<^verbatim>\<open>has_max_batch_size()\<close>, \<^verbatim>\<open>max_batch_size().value()\<close>) is an \<open>option\<close>. An integer
  field holds the integer the message carries; the conversions the C++ code applies to
  it are written out below.
\<close>

record BatchingParameters =
  max_batch_size :: "int option"
  batch_timeout_micros :: "int option"
  max_enqueued_batches :: "int option"
  allowed_batch_sizes :: "int list"
  pad_variable_length_inputs :: bool

text \<open>A C++ \<^verbatim>\<open>int\<close>: 32 bits, two's complement.\<close>

type_synonym cpp_int = "32 word"

text \<open>
  \<^verbatim>\<open>const int x = e;\<close> for an integer expression \<open>e\<close> of another integer type: the
  value is reduced modulo \<open>2^32\<close> into the range of \<^verbatim>\<open>int\<close>.
\<close>

definition to_cpp_int :: "int \<Rightarrow> cpp_int" where
  "to_cpp_int v = word_of_int v"

text \<open>The integers that \<^verbatim>\<open>int\<close> represents, on which the conversion is the identity.\<close>

definition fits_cpp_int :: "int \<Rightarrow> bool" where
  "fits_cpp_int v = (- (2 ^ 31) \<le> v \<and> v < 2 ^ 31)"

text \<open>\<^verbatim>\<open>BatchingSessionOptions\<close>, as far as the function fills it.\<close>

record BatchingSessionOptions =
  options_allowed_batch_sizes :: "cpp_int list"
  options_pad_variable_length_inputs :: bool

text \<open>
  The lambda \<^verbatim>\<open>create_queue\<close> captures the scheduler and the queue options, and calls
  \<^verbatim>\<open>batch_scheduler->AddQueue(queue_options, ...)\<close> when it is run. It is represented by
  what it captures.
\<close>

datatype ('scheduler, 'queue_options) create_queue_closure =
  CreateQueue 'scheduler 'queue_options

text \<open>
  What the function calls and the sources do not hold: the default
  \<^verbatim>\<open>Batcher::QueueOptions().input_batch_size_limit\<close>, \<^verbatim>\<open>SplitInputTask\<close>,
  \<^verbatim>\<open>GetQueueOptions\<close>, \<^verbatim>\<open>TensorSignatureFromSignatureDef\<close> and the two overloads of
  \<^verbatim>\<open>CreateBatchingSession\<close>. They are parameters: every theorem holds whatever they are.
  \<^verbatim>\<open>CreateBatchingSession\<close> receives the session by \<^verbatim>\<open>std::move(*session)\<close> and the
  caller's pointer as its output argument, so it returns, with its status, what the
  caller's pointer holds afterwards.
\<close>

record ('session, 'scheduler, 'signature, 'tensor_signature, 'queue_options, 'split) collaborators =
  input_batch_size_limit :: int
  SplitInputTask :: "'split"
  GetQueueOptions :: "BatchingParameters \<Rightarrow> 'split \<Rightarrow> 'queue_options"
  TensorSignatureFromSignatureDef :: "'signature \<Rightarrow> 'tensor_signature"
  CreateBatchingSession_default_creator ::
    "BatchingSessionOptions
      \<Rightarrow> ('tensor_signature \<times> ('scheduler, 'queue_options) create_queue_closure) list
      \<Rightarrow> ('scheduler, 'queue_options) create_queue_closure
      \<Rightarrow> 'session \<Rightarrow> Status \<times> 'session option"
  CreateBatchingSession ::
    "BatchingSessionOptions
      \<Rightarrow> ('tensor_signature \<times> ('scheduler, 'queue_options) create_queue_closure) list
      \<Rightarrow> 'session \<Rightarrow> Status \<times> 'session option"

text \<open>
  Lines 92-97: the lambda \<^verbatim>\<open>split_input_task_func\<close> passes its four arguments on to
  \<^verbatim>\<open>SplitInputTask\<close> and returns its status.
\<close>

definition split_input_task_func ::
  "('session, 'scheduler, 'signature, 'tensor_signature, 'queue_options, 'split) collaborators
    \<Rightarrow> 'split" where
  "split_input_task_func ext = SplitInputTask ext"

text \<open>
  Lines 76-77: \<^verbatim>\<open>const int last_allowed_size = batching_config.allowed_batch_sizes(size - 1)\<close>.
  It is evaluated only when the list is not empty.
\<close>

definition last_allowed_size :: "BatchingParameters \<Rightarrow> cpp_int" where
  "last_allowed_size batching_config = to_cpp_int (last (allowed_batch_sizes batching_config))"

text \<open>
  Lines 78-80: the configured \<^verbatim>\<open>max_batch_size\<close> when set, otherwise the scheduler's
  default; \<^verbatim>\<open>max_size\<close> is that value as an \<^verbatim>\<open>int\<close>.
\<close>

definition effective_max_batch_size ::
  "('session, 'scheduler, 'signature, 'tensor_signature, 'queue_options, 'split) collaborators
    \<Rightarrow> BatchingParameters \<Rightarrow> int" where
  "effective_max_batch_size ext batching_config =
     (case max_batch_size batching_config of
        Some v \<Rightarrow> v
      | None \<Rightarrow> input_batch_size_limit ext)"

definition max_size ::
  "('session, 'scheduler, 'signature, 'tensor_signature, 'queue_options, 'split) collaborators
    \<Rightarrow> BatchingParameters \<Rightarrow> cpp_int" where
  "max_size ext batching_config = to_cpp_int (effective_max_batch_size ext batching_config)"

text \<open>Lines 82-85: the error of the check.\<close>

definition allowed_batch_sizes_error :: "cpp_int \<Rightarrow> cpp_int \<Rightarrow> Status" where
  "allowed_batch_sizes_error last_allowed max_allowed =
     errors_InvalidArgument
       [Text ''Last entry in allowed_batch_sizes must match max_batch_size; last entry was '',
        Number (sint last_allowed), Text ''; expected '', Number (sint max_allowed)]"

text \<open>
  Lines 60-140. The pointer \<^verbatim>\<open>std::unique_ptr<Session>* session\<close> is an input and an
  output: the function returns its status and what the pointer holds when it returns.
  \<open>None\<close> is \<^verbatim>\<open>nullptr\<close>, for the scheduler and for the session.
\<close>

definition WrapSessionForBatching ::
  "('session, 'scheduler, 'signature, 'tensor_signature, 'queue_options, 'split) collaborators
    \<Rightarrow> BatchingParameters \<Rightarrow> 'scheduler option \<Rightarrow> 'signature list \<Rightarrow> 'session option \<Rightarrow> bool
    \<Rightarrow> Status \<times> 'session option" where
  "WrapSessionForBatching ext batching_config batch_scheduler signatures session
      enable_default_schedule_creator =
     (case batch_scheduler of
        None \<Rightarrow> (errors_Internal ''batch_scheduler not set'', session)
      | Some scheduler \<Rightarrow>
     (case session of
        None \<Rightarrow> (errors_Internal ''session not set'', session)
      | Some raw_session \<Rightarrow>
     (if allowed_batch_sizes batching_config \<noteq> []
         \<and> last_allowed_size batching_config \<noteq> max_size ext batching_config
      then (allowed_batch_sizes_error (last_allowed_size batching_config)
              (max_size ext batching_config), session)
      else
        let queue_options = GetQueueOptions ext batching_config (split_input_task_func ext);
            batching_session_options =
              \<lparr> options_allowed_batch_sizes =
                  map to_cpp_int (allowed_batch_sizes batching_config),
                options_pad_variable_length_inputs =
                  pad_variable_length_inputs batching_config \<rparr>;
            create_queue = CreateQueue scheduler queue_options;
            signatures_with_scheduler_creators =
              map (\<lambda>signature. (TensorSignatureFromSignatureDef ext signature, create_queue))
                signatures
        in if enable_default_schedule_creator
           then CreateBatchingSession_default_creator ext batching_session_options
                  signatures_with_scheduler_creators create_queue raw_session
           else CreateBatchingSession ext batching_session_options
                  signatures_with_scheduler_creators raw_session)))"

text \<open>
  What the function hands to \<^verbatim>\<open>CreateBatchingSession\<close> once the checks have passed
  (lines 98-139), named so that theorems can speak of it.
\<close>

definition create_batching_session ::
  "('session, 'scheduler, 'signature, 'tensor_signature, 'queue_options, 'split) collaborators
    \<Rightarrow> BatchingParameters \<Rightarrow> 'scheduler \<Rightarrow> 'signature list \<Rightarrow> 'session \<Rightarrow> bool
    \<Rightarrow> Status \<times> 'session option" where
  "create_batching_session ext batching_config scheduler signatures raw_session
      enable_default_schedule_creator =
     (let create_queue =
            CreateQueue scheduler (GetQueueOptions ext batching_config (SplitInputTask ext));
          batching_session_options =
            \<lparr> options_allowed_batch_sizes =
                map to_cpp_int (allowed_batch_sizes batching_config),
              options_pad_variable_length_inputs =
                pad_variable_length_inputs batching_config \<rparr>;
          signatures_with_scheduler_creators =
            map (\<lambda>signature. (TensorSignatureFromSignatureDef ext signature, create_queue))
              signatures
      in if enable_default_schedule_creator
         then CreateBatchingSession_default_creator ext batching_session_options
                signatures_with_scheduler_creators create_queue raw_session
         else CreateBatchingSession ext batching_session_options
                signatures_with_scheduler_creators raw_session)"

text \<open>A concrete choice of the collaborators, for evaluating the function on examples.\<close>

definition example_collaborators ::
  "(nat, nat, nat, nat, BatchingParameters, unit) collaborators" where
  "example_collaborators =
     \<lparr> input_batch_size_limit = 1000,
       SplitInputTask = (),
       GetQueueOptions = (\<lambda>batching_config split. batching_config),
       TensorSignatureFromSignatureDef = (\<lambda>signature. signature),
       CreateBatchingSession_default_creator =
         (\<lambda>options creators create_queue raw_session. (Status_OK, Some (Suc raw_session))),
       CreateBatchingSession =
         (\<lambda>options creators raw_session. (Status_OK, Some (Suc raw_session))) \<rparr>"


definition example_parameters :: "int list \<Rightarrow> int option \<Rightarrow> BatchingParameters" where
  "example_parameters sizes limit =
     \<lparr> max_batch_size = limit, batch_timeout_micros = None, max_enqueued_batches = None,
       allowed_batch_sizes = sizes, pad_variable_length_inputs = False \<rparr>"

section \<open>file\_system\_storage\_path\_source.h: FileSystemStoragePathSource\<close>

text \<open>
  The configuration message, whose definition is not among the sources, as spec 3 and 6
  describe it: the servables to monitor, each with its name and its base path, and the
  one polling period shared by all of them.
\<close>

record ServableToMonitor =
  servable_name :: string
  base_path :: string

record FileSystemStoragePathSourceConfig =
  servables :: "ServableToMonitor list"
  file_system_poll_wait_seconds :: int

text \<open>
  One aspired version as the callback receives it (spec 3): the servable, the version
  number, the storage path.
\<close>

record AspiredVersion =
  aspired_servable_name :: string
  version_number :: nat
  storage_path :: string

text \<open>
  Lines 123-125: \<^verbatim>\<open>absl::variant<absl::monostate, PeriodicFunction, std::unique_ptr<Thread>>\<close>.
\<close>

datatype ThreadType = monostate | PeriodicFunction | Thread

text \<open>
  The callback and the notifier are \<^verbatim>\<open>std::function\<close> objects, empty (\<open>None\<close>) or holding
  a callable. What calling them does is outside the class; a call is recorded as an entry
  of a log, in the order the calls are made.
\<close>

datatype ('callback, 'notifier) invocation =
    CallbackInvoked 'callback string "AspiredVersion list"
  | NotifierInvoked 'notifier

text \<open>
  Lines 113-125: the members of the class, named without their final underscore (the
  accessor \<^verbatim>\<open>config()\<close> of lines 76-79 is the field \<open>config\<close>). \<open>invocations\<close> is not a
  member: it is the log of the calls the object has made so far.
\<close>

record ('callback, 'notifier) FileSystemStoragePathSource =
  config :: FileSystemStoragePathSourceConfig
  aspired_versions_callback :: "'callback option"
  aspired_versions_callback_notifier :: "'notifier option"
  fs_polling_thread :: "ThreadType option"
  invocations :: "('callback, 'notifier) invocation list"

text \<open>
  Lines 97-105: the callback is called only when it is set, with the arguments forwarded
  (the servable's name and its versions); the notifier is called after it, only when it
  is set too.
\<close>

definition CallAspiredVersionsCallback ::
  "string \<Rightarrow> AspiredVersion list \<Rightarrow> ('callback, 'notifier) FileSystemStoragePathSource
    \<Rightarrow> ('callback, 'notifier) FileSystemStoragePathSource" where
  "CallAspiredVersionsCallback name versions src =
     (case aspired_versions_callback src of
        None \<Rightarrow> src
      | Some callback \<Rightarrow>
          let called = src\<lparr> invocations := invocations src @ [CallbackInvoked callback name versions] \<rparr>
          in (case aspired_versions_callback_notifier called of
                None \<Rightarrow> called
              | Some notifier \<Rightarrow>
                  called\<lparr> invocations := invocations called @ [NotifierInvoked notifier] \<rparr>))"

text \<open>Lines 108-111.\<close>

definition SetAspiredVersionsCallbackNotifier ::
  "'notifier option \<Rightarrow> ('callback, 'notifier) FileSystemStoragePathSource
    \<Rightarrow> ('callback, 'notifier) FileSystemStoragePathSource" where
  "SetAspiredVersionsCallbackNotifier fn src = src\<lparr> aspired_versions_callback_notifier := fn \<rparr>"

text \<open>
  The version lists that a stretch of the log reports for one servable, each with the
  callback that received it, in order.
\<close>

fun reported ::
  "string \<Rightarrow> ('callback, 'notifier) invocation list \<Rightarrow> ('callback \<times> AspiredVersion list) list" where
  "reported name [] = []"
| "reported name (CallbackInvoked callback n versions # log) =
     (if n = name then (callback, versions) # reported name log else reported name log)"
| "reported name (NotifierInvoked notifier # log) = reported name log"

subsection \<open>Polling\<close>

text \<open>
  Modelled from the spec: the parsing of a child's name into a version number, which
  belongs to the implementation file of the class (not among the sources). Spec 3 and
  4.1: a child counts when its "full name parses as a non-negative integer"; the header
  (lines 45-47) says "children whose name is a number (e.g. 123)". Here: a non-empty
  name of decimal digits only, read in base ten, with no bound on its size.
\<close>

definition digit_value :: "char \<Rightarrow> nat option" where
  "digit_value c =
     (let n = (of_char c :: nat) in if 48 \<le> n \<and> n \<le> 57 then Some (n - 48) else None)"

fun parse_digits :: "nat \<Rightarrow> string \<Rightarrow> nat option" where
  "parse_digits acc [] = Some acc"
| "parse_digits acc (c # cs) =
     (case digit_value c of
        None \<Rightarrow> None
      | Some d \<Rightarrow> parse_digits (10 * acc + d) cs)"

definition ParseVersionNumber :: "string \<Rightarrow> nat option" where
  "ParseVersionNumber child = (if child = [] then None else parse_digits 0 child)"

text \<open>
  Modelled from the spec: the path of a version, "base/max" in spec 4.1 step 4
  (\<^verbatim>\<open>/foo/bar/456\<close> for the base path \<^verbatim>\<open>/foo/bar\<close> in the header, line 53): the base
  path, a slash, the child's name.
\<close>

definition JoinPath :: "string \<Rightarrow> string \<Rightarrow> string" where
  "JoinPath base child = base @ ''/'' @ child"

text \<open>
  Modelled from the spec: steps 2-4 of the poll algorithm of spec 4.1, whose code is in
  the implementation file of the class (not among the sources). The children are
  scanned once; \<open>best\<close> is the largest numeric child seen so far, and a child replaces
  it only when its number is strictly larger.
\<close>

fun latest_version :: "(nat \<times> string) option \<Rightarrow> string list \<Rightarrow> (nat \<times> string) option" where
  "latest_version best [] = best"
| "latest_version best (child # children) =
     (case ParseVersionNumber child of
        None \<Rightarrow> latest_version best children
      | Some v \<Rightarrow>
          (case best of
             None \<Rightarrow> latest_version (Some (v, child)) children
           | Some (b, best_child) \<Rightarrow>
               if b < v then latest_version (Some (v, child)) children
               else latest_version best children))"

definition AspireLatestVersion :: "string \<Rightarrow> string \<Rightarrow> string list \<Rightarrow> AspiredVersion list" where
  "AspireLatestVersion name base children =
     (case latest_version None children of
        None \<Rightarrow> []
      | Some (v, child) \<Rightarrow>
          [\<lparr> aspired_servable_name = name, version_number = v,
             storage_path = JoinPath base child \<rparr>])"

text \<open>
  Modelled from the spec: \<^verbatim>\<open>PollFileSystemAndInvokeCallback\<close>, declared at line 91 and
  defined in the implementation file of the class (not among the sources). Spec 4.1,
  poll algorithm: for every configured servable, list the children of its base path; a
  listing failure skips the servable for this tick with no notification; otherwise the
  callback is invoked with the empty list or with the largest numeric child. The file
  system is the parameter \<open>get_children\<close>: the children of a path, or the error of the
  listing. The servables are visited in the order of the configuration (the spec leaves
  the order across servables open), and the callback is reached through
  \<^verbatim>\<open>CallAspiredVersionsCallback\<close>. The spec does not say which status the function
  returns, so the model returns the object only.
\<close>

fun PollServables ::
  "(string \<Rightarrow> Status + string list) \<Rightarrow> ServableToMonitor list
    \<Rightarrow> ('callback, 'notifier) FileSystemStoragePathSource
    \<Rightarrow> ('callback, 'notifier) FileSystemStoragePathSource" where
  "PollServables get_children [] src = src"
| "PollServables get_children (servable # rest) src =
     (case get_children (base_path servable) of
        Inl listing_error \<Rightarrow> PollServables get_children rest src
      | Inr children \<Rightarrow>
          PollServables get_children rest
            (CallAspiredVersionsCallback (servable_name servable)
               (AspireLatestVersion (servable_name servable) (base_path servable) children) src))"

definition PollFileSystemAndInvokeCallback ::
  "(string \<Rightarrow> Status + string list) \<Rightarrow> ('callback, 'notifier) FileSystemStoragePathSource
    \<Rightarrow> ('callback, 'notifier) FileSystemStoragePathSource" where
  "PollFileSystemAndInvokeCallback get_children src =
     PollServables get_children (servables (config src)) src"

subsection \<open>Reconfiguration\<close>

text \<open>
  Modelled from the spec: the set of servables "present before but absent after" (spec
  4.1), which \<^verbatim>\<open>UnaspireServables\<close> receives as a \<^verbatim>\<open>std::set<string>\<close> (line 94): every
  name once, in the order of the set.
\<close>

definition GetDeletedServables ::
  "FileSystemStoragePathSourceConfig \<Rightarrow> FileSystemStoragePathSourceConfig \<Rightarrow> string list" where
  "GetDeletedServables old_config new_config =
     sort (remdups
       (filter (\<lambda>name. name \<notin> set (map servable_name (servables new_config)))
          (map servable_name (servables old_config))))"

text \<open>
  Modelled from the spec: \<^verbatim>\<open>UnaspireServables\<close>, declared at lines 93-95 ("Sends empty
  aspired-versions lists for each servable in 'servable\_names'") and defined in the
  implementation file of the class (not among the sources). The lists are sent through
  \<^verbatim>\<open>CallAspiredVersionsCallback\<close>, the one place of the class that calls the callback.
\<close>

definition UnaspireServables ::
  "string list \<Rightarrow> ('callback, 'notifier) FileSystemStoragePathSource
    \<Rightarrow> ('callback, 'notifier) FileSystemStoragePathSource" where
  "UnaspireServables servable_names src =
     fold (\<lambda>name. CallAspiredVersionsCallback name []) servable_names src"

text \<open>
  Modelled from the spec: the status that \<^verbatim>\<open>UpdateConfig\<close> (declared at line 72 with the
  return type \<^verbatim>\<open>Status\<close>) returns for an illegal change of the polling period. The
  kind is the one of the spec's error taxonomy (spec 7): "configuration errors
  (invalid-argument: malformed batching parameters, illegal period change)"; spec 8
  calls it a configuration error too. Spec 4.1 calls the same error "invalid-state",
  which is not a kind of that taxonomy. The spec gives no message text, so the message
  is left empty.
\<close>

definition polling_period_change_error :: Status where
  "polling_period_change_error = errors_InvalidArgument []"

text \<open>
  Modelled from the spec: \<^verbatim>\<open>UpdateConfig\<close>, declared at line 72 and defined in the
  implementation file of the class (not among the sources). Spec 4.1 and the header
  (lines 57-61 and 68-71): changing the polling period once a callback has been
  registered fails, and then nothing else happens (spec 8: "the source's behavior is
  otherwise unchanged"); otherwise every servable of the old configuration that the new
  one lacks is sent an empty list, and the new configuration replaces the old one.
\<close>

definition UpdateConfig ::
  "FileSystemStoragePathSourceConfig \<Rightarrow> ('callback, 'notifier) FileSystemStoragePathSource
    \<Rightarrow> Status \<times> ('callback, 'notifier) FileSystemStoragePathSource" where
  "UpdateConfig new_config src =
     (if aspired_versions_callback src \<noteq> None
         \<and> file_system_poll_wait_seconds new_config
             \<noteq> file_system_poll_wait_seconds (config src)
      then (polling_period_change_error, src)
      else (Status_OK,
            (UnaspireServables (GetDeletedServables (config src) new_config) src)
              \<lparr> config := new_config \<rparr>))"

text \<open>Concrete configurations and objects, for evaluating the functions on examples.\<close>

definition example_config :: "(string \<times> string) list \<Rightarrow> int \<Rightarrow> FileSystemStoragePathSourceConfig" where
  "example_config monitored period =
     \<lparr> servables =
         map (\<lambda>(name, base). \<lparr> servable_name = name, base_path = base \<rparr>) monitored,
       file_system_poll_wait_seconds = period \<rparr>"

definition example_source ::
  "FileSystemStoragePathSourceConfig \<Rightarrow> nat option \<Rightarrow> nat option
    \<Rightarrow> (nat, nat) FileSystemStoragePathSource" where
  "example_source initial_config callback notifier =
     \<lparr> config = initial_config,
       aspired_versions_callback = callback,
       aspired_versions_callback_notifier = notifier,
       fs_polling_thread = (case callback of None \<Rightarrow> None | Some c \<Rightarrow> Some PeriodicFunction),
       invocations = [] \<rparr>"

definition example_file_system :: "string \<Rightarrow> Status + string list" where
  "example_file_system path =
     (if path = ''/models/foo'' then Inr [''1'', ''2'', ''abc'', ''10'']
      else if path = ''/models/bar'' then Inr [''tmp'', ''readme'']
      else Inl (Status NOT_FOUND [Text path]))"

section \<open>Theorems on WrapSessionForBatching\<close>

lemma to_cpp_int_inject:
  assumes "fits_cpp_int a" and "fits_cpp_int b"
  shows "to_cpp_int a = to_cpp_int b \<longleftrightarrow> a = b"
proof
  assume eq: "to_cpp_int a = to_cpp_int b"
  have rd: "sint (to_cpp_int v) = v" if "fits_cpp_int v" for v
    using that by (simp add: to_cpp_int_def fits_cpp_int_def sint_sbintrunc'
        signed_take_bit_int_eq_self)
  have "a = sint (to_cpp_int a)"
    by (simp only: rd [OF assms(1)])
  also have "\<dots> = sint (to_cpp_int b)"
    by (simp only: eq)
  also have "\<dots> = b"
    by (simp only: rd [OF assms(2)])
  finally show "a = b" .
next
  assume "a = b"
  then show "to_cpp_int a = to_cpp_int b" by simp
qed

lemma WrapSessionForBatching_checks_passed:
  assumes "allowed_batch_sizes batching_config = []
           \<or> last_allowed_size batching_config = max_size ext batching_config"
  shows "WrapSessionForBatching ext batching_config (Some scheduler) signatures
           (Some raw_session) enable =
         create_batching_session ext batching_config scheduler signatures raw_session enable"
  using assms
  by (auto simp add: WrapSessionForBatching_def create_batching_session_def
      split_input_task_func_def Let_def)

lemma WrapSessionForBatching_check_failed:
  assumes "allowed_batch_sizes batching_config \<noteq> []"
    and "last_allowed_size batching_config \<noteq> max_size ext batching_config"
  shows "WrapSessionForBatching ext batching_config (Some scheduler) signatures
           (Some raw_session) enable =
         (allowed_batch_sizes_error (last_allowed_size batching_config)
            (max_size ext batching_config), Some raw_session)"
  using assms by (simp add: WrapSessionForBatching_def)

lemma example_simps:
  "allowed_batch_sizes (example_parameters sizes limit) = sizes"
  "max_batch_size (example_parameters sizes limit) = limit"
  "pad_variable_length_inputs (example_parameters sizes limit) = False"
  "input_batch_size_limit example_collaborators = 1000"
  by (simp_all add: example_parameters_def example_collaborators_def)

lemma create_batching_session_example:
  "create_batching_session example_collaborators (example_parameters sizes limit) 3 [5] 0 True
     = (Status_OK, Some 1)"
  by (simp add: create_batching_session_def example_collaborators_def Let_def)

text \<open>
  Claim C5. When the scheduler handle or the session handle is unset, the function
  returns an internal error and the caller's session pointer holds what it held. The
  result does not depend on the configuration, on the signatures or on any of the
  collaborators: nothing was called, so no batching wrapper was created.
\<close>

theorem WrapSessionForBatching_unset_handle_internal_error:
  assumes "batch_scheduler = None \<or> session = None"
  shows "(\<exists>msg. WrapSessionForBatching ext batching_config batch_scheduler signatures session enable
            = (errors_Internal msg, session))
         \<and> WrapSessionForBatching ext batching_config batch_scheduler signatures session enable
            = WrapSessionForBatching ext' batching_config' batch_scheduler signatures' session enable'"
  using assms by (auto simp add: WrapSessionForBatching_def split: option.splits)

theorem WrapSessionForBatching_unset_handle_internal_error_witness:
  "((None :: nat option) = None \<or> Some (0::nat) = None)
   \<and> WrapSessionForBatching example_collaborators (example_parameters [2, 4, 8] (Some 8))
        None [5, 6] (Some 0) True = (errors_Internal ''batch_scheduler not set'', Some 0)
   \<and> ((Some (3::nat)) = None \<or> (None :: nat option) = None)
   \<and> WrapSessionForBatching example_collaborators (example_parameters [2, 4, 8] (Some 8))
        (Some 3) [5, 6] None True = (errors_Internal ''session not set'', None)"
  using WrapSessionForBatching_unset_handle_internal_error
    [of None "Some 0" example_collaborators "example_parameters [2, 4, 8] (Some 8)" "[5, 6]" True]
    WrapSessionForBatching_unset_handle_internal_error
    [of "Some 3" None example_collaborators "example_parameters [2, 4, 8] (Some 8)" "[5, 6]" True]
  by (simp add: WrapSessionForBatching_def)




text \<open>
  Claim C2, as amended. With the scheduler and the session set, a non-empty
  \<open>allowed_batch_sizes\<close> whose last element and the effective \<open>max_batch_size\<close> (the
  configured one when set, otherwise the scheduler's default) both fit in a C++ \<open>int\<close>:
  the function returns an invalid-argument error, the session untouched, when the two
  differ, and goes on to create the batching session when they are equal.
\<close>

theorem WrapSessionForBatching_allowed_batch_sizes_check:
  assumes "allowed_batch_sizes batching_config \<noteq> []"
    and "fits_cpp_int (last (allowed_batch_sizes batching_config))"
    and "fits_cpp_int (effective_max_batch_size ext batching_config)"
  shows "(last (allowed_batch_sizes batching_config) \<noteq> effective_max_batch_size ext batching_config
            \<longrightarrow> (\<exists>msg. WrapSessionForBatching ext batching_config (Some scheduler) signatures
                        (Some raw_session) enable
                      = (Status INVALID_ARGUMENT msg, Some raw_session)))
       \<and> (last (allowed_batch_sizes batching_config) = effective_max_batch_size ext batching_config
            \<longrightarrow> WrapSessionForBatching ext batching_config (Some scheduler) signatures
                   (Some raw_session) enable
                 = create_batching_session ext batching_config scheduler signatures raw_session
                     enable)"
proof -
  have same: "last_allowed_size batching_config = max_size ext batching_config
              \<longleftrightarrow> last (allowed_batch_sizes batching_config)
                    = effective_max_batch_size ext batching_config"
    unfolding last_allowed_size_def max_size_def
    by (rule to_cpp_int_inject [OF assms(2) assms(3)])
  show ?thesis
  proof (cases "last (allowed_batch_sizes batching_config)
                  = effective_max_batch_size ext batching_config")
    case True
    then show ?thesis
      using WrapSessionForBatching_checks_passed [of batching_config ext] same by simp
  next
    case False
    then show ?thesis
      using WrapSessionForBatching_check_failed [OF assms(1), of ext] same
      by (simp add: allowed_batch_sizes_error_def errors_InvalidArgument_def)
  qed
qed

theorem WrapSessionForBatching_allowed_batch_sizes_check_witness:
  "(\<exists>msg. WrapSessionForBatching example_collaborators (example_parameters [2, 4, 6] (Some 8))
            (Some 3) [5] (Some 0) True = (Status INVALID_ARGUMENT msg, Some 0))
   \<and> WrapSessionForBatching example_collaborators (example_parameters [2, 4, 8] (Some 8))
        (Some 3) [5] (Some 0) True
      = create_batching_session example_collaborators (example_parameters [2, 4, 8] (Some 8))
          3 [5] 0 True
   \<and> WrapSessionForBatching example_collaborators (example_parameters [10, 1000] None)
        (Some 3) [5] (Some 0) True
      = create_batching_session example_collaborators (example_parameters [10, 1000] None)
          3 [5] 0 True"
  using WrapSessionForBatching_allowed_batch_sizes_check
      [of "example_parameters [2, 4, 6] (Some 8)" example_collaborators 3 "[5]" 0 True]
    WrapSessionForBatching_allowed_batch_sizes_check
      [of "example_parameters [2, 4, 8] (Some 8)" example_collaborators 3 "[5]" 0 True]
    WrapSessionForBatching_allowed_batch_sizes_check
      [of "example_parameters [10, 1000] None" example_collaborators 3 "[5]" 0 True]
  by (simp add: example_simps fits_cpp_int_def effective_max_batch_size_def)

text \<open>
  Claim C2 as stated fails when a handle is unset: the parameters \<open>[2, 4, 6]\<close> with
  \<open>max_batch_size = 8\<close> are rejected, but with the internal error of the earlier check,
  not with an invalid-argument error.
\<close>

theorem WrapSessionForBatching_unset_scheduler_counterexample:
  "allowed_batch_sizes (example_parameters [2, 4, 6] (Some 8)) \<noteq> []
   \<and> last (allowed_batch_sizes (example_parameters [2, 4, 6] (Some 8)))
       \<noteq> effective_max_batch_size example_collaborators (example_parameters [2, 4, 6] (Some 8))
   \<and> status_code (fst (WrapSessionForBatching example_collaborators
        (example_parameters [2, 4, 6] (Some 8)) None [5] (Some 0) True)) \<noteq> INVALID_ARGUMENT"
  by (simp add: example_simps effective_max_batch_size_def WrapSessionForBatching_def
      errors_Internal_def)

text \<open>
  The comparison is made on the two values after their conversion to \<open>int\<close> (lines 76
  and 78 declare both \<^verbatim>\<open>const int\<close>), while the message carries 64-bit integers: a
  last element of \<open>2^32 + 8\<close> and a maximum of \<open>8\<close> differ, and the check lets them pass.
\<close>

lemma WrapSessionForBatching_compares_after_conversion:
  "last (allowed_batch_sizes (example_parameters [4294967304] (Some 8)))
       \<noteq> effective_max_batch_size example_collaborators (example_parameters [4294967304] (Some 8))
   \<and> WrapSessionForBatching example_collaborators (example_parameters [4294967304] (Some 8))
        (Some 3) [5] (Some 0) True
      = create_batching_session example_collaborators (example_parameters [4294967304] (Some 8))
          3 [5] 0 True"
  by (simp add: example_simps effective_max_batch_size_def WrapSessionForBatching_def
      create_batching_session_def split_input_task_func_def last_allowed_size_def max_size_def
      to_cpp_int_def Let_def)

section \<open>Theorems on FileSystemStoragePathSource\<close>

lemma CallAspiredVersionsCallback_unset:
  "aspired_versions_callback src = None \<Longrightarrow> CallAspiredVersionsCallback name versions src = src"
  by (simp add: CallAspiredVersionsCallback_def)

lemma CallAspiredVersionsCallback_set:
  "aspired_versions_callback src = Some callback \<Longrightarrow>
   CallAspiredVersionsCallback name versions src =
     src\<lparr> invocations := invocations src @
            CallbackInvoked callback name versions
              # (case aspired_versions_callback_notifier src of
                   None \<Rightarrow> []
                 | Some notifier \<Rightarrow> [NotifierInvoked notifier]) \<rparr>"
  by (simp add: CallAspiredVersionsCallback_def Let_def split: option.splits)

lemma example_source_simps:
  "config (example_source c cb nf) = c"
  "aspired_versions_callback (example_source c cb nf) = cb"
  "aspired_versions_callback_notifier (example_source c cb nf) = nf"
  "invocations (example_source c cb nf) = []"
  by (simp_all add: example_source_def)

text \<open>
  Claim C9. With no callback registered, \<^verbatim>\<open>CallAspiredVersionsCallback\<close> leaves the
  object as it is: nothing is called, neither the callback nor the notifier. With a
  callback registered, the log grows by the call of the callback and, when a notifier is
  set, by exactly one call of the notifier right after it; nothing else changes. An
  empty function object is never called: a call needs the value the object holds.
\<close>

theorem CallAspiredVersionsCallback_guarded:
  "(aspired_versions_callback src = None
      \<longrightarrow> CallAspiredVersionsCallback name versions src = src)
   \<and> (\<forall>callback. aspired_versions_callback src = Some callback
      \<longrightarrow> CallAspiredVersionsCallback name versions src =
            src\<lparr> invocations := invocations src @
                   CallbackInvoked callback name versions
                     # (case aspired_versions_callback_notifier src of
                          None \<Rightarrow> []
                        | Some notifier \<Rightarrow> [NotifierInvoked notifier]) \<rparr>)"
  by (simp add: CallAspiredVersionsCallback_unset CallAspiredVersionsCallback_set)

theorem CallAspiredVersionsCallback_guarded_witness:
  "CallAspiredVersionsCallback ''foo'' [] (example_source (example_config [] 1) None (Some 9))
      = example_source (example_config [] 1) None (Some 9)
   \<and> invocations (CallAspiredVersionsCallback ''foo'' []
        (example_source (example_config [] 1) (Some 7) (Some 9)))
      = [CallbackInvoked 7 ''foo'' [], NotifierInvoked 9]
   \<and> invocations (CallAspiredVersionsCallback ''foo'' []
        (example_source (example_config [] 1) (Some 7) None))
      = [CallbackInvoked 7 ''foo'' []]"
  using CallAspiredVersionsCallback_guarded
      [of "example_source (example_config [] 1) None (Some 9)" "''foo''" "[]"]
    CallAspiredVersionsCallback_guarded
      [of "example_source (example_config [] 1) (Some 7) (Some 9)" "''foo''" "[]"]
    CallAspiredVersionsCallback_guarded
      [of "example_source (example_config [] 1) (Some 7) None" "''foo''" "[]"]
  by (simp add: example_source_simps)

lemma CallAspiredVersionsCallback_frame:
  "config (CallAspiredVersionsCallback name versions src) = config src"
  "aspired_versions_callback (CallAspiredVersionsCallback name versions src)
     = aspired_versions_callback src"
  "aspired_versions_callback_notifier (CallAspiredVersionsCallback name versions src)
     = aspired_versions_callback_notifier src"
  "fs_polling_thread (CallAspiredVersionsCallback name versions src) = fs_polling_thread src"
  by (simp_all add: CallAspiredVersionsCallback_def Let_def split: option.splits)

lemma reported_append: "reported name (xs @ ys) = reported name xs @ reported name ys"
  by (induction name xs rule: reported.induct) simp_all

subsection \<open>The largest numeric child\<close>

lemma latest_version_keeps: "latest_version (Some b) children \<noteq> None"
  by (induction children arbitrary: b) (simp_all split: option.splits prod.splits)

lemma latest_version_None:
  "latest_version best children = None
     \<longleftrightarrow> best = None \<and> (\<forall>child\<in>set children. ParseVersionNumber child = None)"
proof (induction children arbitrary: best)
  case Nil
  show ?case by simp
next
  case (Cons child children)
  show ?case
  proof (cases best)
    case None
    then show ?thesis
      using Cons.IH [of None] latest_version_keeps [of _ children]
      by (cases "ParseVersionNumber child") auto
  next
    case (Some b)
    then show ?thesis
      using latest_version_keeps [of b "child # children"] by simp
  qed
qed

lemma latest_version_Some:
  assumes "latest_version best children = Some (v, chosen)"
    and "\<And>b c. best = Some (b, c) \<Longrightarrow> ParseVersionNumber c = Some b"
  shows "ParseVersionNumber chosen = Some v
         \<and> (chosen \<in> set children \<or> best = Some (v, chosen))
         \<and> (\<forall>other\<in>set children. \<forall>w. ParseVersionNumber other = Some w \<longrightarrow> w \<le> v)
         \<and> (\<forall>b c. best = Some (b, c) \<longrightarrow> b \<le> v)"
  using assms
proof (induction children arbitrary: best)
  case Nil
  then show ?case by simp
next
  case (Cons child children)
  show ?case
  proof (cases "ParseVersionNumber child")
    case None
    with Cons.prems have "latest_version best children = Some (v, chosen)" by simp
    from Cons.IH [OF this Cons.prems(2)] None show ?thesis by auto
  next
    case (Some n)
    note parsed = this
    have replaced: "ParseVersionNumber chosen = Some v
         \<and> (chosen \<in> set children \<or> Some (n, child) = Some (v, chosen))
         \<and> (\<forall>other\<in>set children. \<forall>w. ParseVersionNumber other = Some w \<longrightarrow> w \<le> v)
         \<and> (\<forall>b c. Some (n, child) = Some (b, c) \<longrightarrow> b \<le> v)"
      if step: "latest_version (Some (n, child)) children = Some (v, chosen)"
      by (rule Cons.IH [OF step]) (simp add: parsed)
    show ?thesis
    proof (cases best)
      case None
      with parsed Cons.prems
      have "latest_version (Some (n, child)) children = Some (v, chosen)" by simp
      from replaced [OF this] None parsed show ?thesis by auto
    next
      case (Some bc)
      note held = this
      obtain b c where bc: "bc = (b, c)" by (cases bc)
      show ?thesis
      proof (cases "b < n")
        case True
        with parsed held bc Cons.prems
        have "latest_version (Some (n, child)) children = Some (v, chosen)" by simp
        from replaced [OF this] True parsed held bc show ?thesis by auto
      next
        case False
        with parsed held bc Cons.prems
        have step: "latest_version best children = Some (v, chosen)" by simp
        from Cons.IH [OF step Cons.prems(2)] False parsed held bc show ?thesis by auto
      qed
    qed
  qed
qed

lemma AspireLatestVersion_none:
  "(\<forall>child\<in>set children. ParseVersionNumber child = None)
     \<Longrightarrow> AspireLatestVersion name base children = []"
  using latest_version_None [of None children] by (simp add: AspireLatestVersion_def)

lemma AspireLatestVersion_some:
  assumes "\<exists>child\<in>set children. ParseVersionNumber child \<noteq> None"
  shows "\<exists>child\<in>set children. \<exists>v. ParseVersionNumber child = Some v
           \<and> (\<forall>other\<in>set children. \<forall>w. ParseVersionNumber other = Some w \<longrightarrow> w \<le> v)
           \<and> AspireLatestVersion name base children =
               [\<lparr> aspired_servable_name = name, version_number = v,
                  storage_path = JoinPath base child \<rparr>]"
proof -
  from assms have "latest_version None children \<noteq> None"
    using latest_version_None [of None children] by auto
  then obtain v chosen where found: "latest_version None children = Some (v, chosen)"
    by (cases "latest_version None children") auto
  from latest_version_Some [OF found]
  have "ParseVersionNumber chosen = Some v \<and> chosen \<in> set children
         \<and> (\<forall>other\<in>set children. \<forall>w. ParseVersionNumber other = Some w \<longrightarrow> w \<le> v)"
    by simp
  with found show ?thesis
    by (auto simp add: AspireLatestVersion_def)
qed


text \<open>
  Children whose names do not parse have no part in the result: removing them from the
  listing changes nothing.
\<close>

lemma latest_version_ignores_other_children:
  "latest_version best (filter (\<lambda>child. ParseVersionNumber child \<noteq> None) children)
     = latest_version best children"
  by (induction children arbitrary: best) (auto split: option.splits)

lemma AspireLatestVersion_ignores_other_children:
  "AspireLatestVersion name base (filter (\<lambda>child. ParseVersionNumber child \<noteq> None) children)
     = AspireLatestVersion name base children"
  by (simp only: AspireLatestVersion_def latest_version_ignores_other_children)

subsection \<open>The log of a poll\<close>

lemma CallAspiredVersionsCallback_log:
  "\<exists>entries. invocations (CallAspiredVersionsCallback name versions src) = invocations src @ entries"
  by (simp add: CallAspiredVersionsCallback_def Let_def split: option.splits)

lemma PollServables_frame:
  "config (PollServables get_children monitored src) = config src"
  "aspired_versions_callback (PollServables get_children monitored src)
     = aspired_versions_callback src"
  "aspired_versions_callback_notifier (PollServables get_children monitored src)
     = aspired_versions_callback_notifier src"
  "fs_polling_thread (PollServables get_children monitored src) = fs_polling_thread src"
  by (induction monitored arbitrary: src)
    (simp_all add: CallAspiredVersionsCallback_frame split: sum.splits)

lemma PollServables_extends_log:
  "\<exists>later. invocations (PollServables get_children monitored src) = invocations src @ later"
proof (induction monitored arbitrary: src)
  case Nil
  show ?case by simp
next
  case (Cons servable rest)
  show ?case
  proof (cases "get_children (base_path servable)")
    case (Inl listing_error)
    with Cons.IH [of src] show ?thesis by simp
  next
    case (Inr children)
    let ?called = "CallAspiredVersionsCallback (servable_name servable)
        (AspireLatestVersion (servable_name servable) (base_path servable) children) src"
    obtain entries where "invocations ?called = invocations src @ entries"
      using CallAspiredVersionsCallback_log by blast
    moreover obtain later where
      "invocations (PollServables get_children rest ?called) = invocations ?called @ later"
      using Cons.IH [of ?called] by blast
    ultimately show ?thesis using Inr by simp
  qed
qed

lemma PollServables_not_monitored:
  assumes "name \<notin> set (map servable_name monitored)"
  shows "reported name (invocations (PollServables get_children monitored src))
           = reported name (invocations src)"
  using assms
proof (induction monitored arbitrary: src)
  case Nil
  show ?case by simp
next
  case (Cons servable rest)
  then have other: "servable_name servable \<noteq> name" and rest: "name \<notin> set (map servable_name rest)"
    by auto
  have one: "reported name (invocations (CallAspiredVersionsCallback (servable_name servable) versions src))
               = reported name (invocations src)" for versions
    using other
    by (simp add: CallAspiredVersionsCallback_def Let_def reported_append split: option.splits)
  show ?case
    using Cons.IH [OF rest] one by (simp split: sum.splits)
qed

lemma PollServables_reports:
  assumes "aspired_versions_callback src = Some callback"
    and "servable \<in> set monitored"
    and "distinct (map servable_name monitored)"
    and "get_children (base_path servable) = Inr children"
  shows "reported (servable_name servable) (invocations (PollServables get_children monitored src))
           = reported (servable_name servable) (invocations src)
             @ [(callback, AspireLatestVersion (servable_name servable) (base_path servable) children)]"
  using assms
proof (induction monitored arbitrary: src)
  case Nil
  then show ?case by simp
next
  case (Cons first rest)
  show ?case
  proof (cases "first = servable")
    case True
    let ?called = "CallAspiredVersionsCallback (servable_name servable)
        (AspireLatestVersion (servable_name servable) (base_path servable) children) src"
    from Cons.prems have "servable_name servable \<notin> set (map servable_name rest)"
      using True by simp
    then have "reported (servable_name servable) (invocations (PollServables get_children rest ?called))
                 = reported (servable_name servable) (invocations ?called)"
      by (rule PollServables_not_monitored)
    moreover have "reported (servable_name servable) (invocations ?called)
                 = reported (servable_name servable) (invocations src)
                   @ [(callback, AspireLatestVersion (servable_name servable) (base_path servable) children)]"
      using Cons.prems(1)
      by (simp add: CallAspiredVersionsCallback_set reported_append split: option.splits)
    ultimately show ?thesis
      using True Cons.prems(4) by simp
  next
    case False
    with Cons.prems have inrest: "servable \<in> set rest" and dist: "distinct (map servable_name rest)"
      and other: "servable_name first \<noteq> servable_name servable"
      by auto
    show ?thesis
    proof (cases "get_children (base_path first)")
      case (Inl listing_error)
      then show ?thesis
        using Cons.IH [OF Cons.prems(1) inrest dist Cons.prems(4)] by simp
    next
      case (Inr others)
      let ?called = "CallAspiredVersionsCallback (servable_name first)
          (AspireLatestVersion (servable_name first) (base_path first) others) src"
      have cb: "aspired_versions_callback ?called = Some callback"
        using Cons.prems(1) by (simp add: CallAspiredVersionsCallback_frame)
      have "reported (servable_name servable) (invocations ?called)
              = reported (servable_name servable) (invocations src)"
        using other
        by (simp add: CallAspiredVersionsCallback_def Let_def reported_append split: option.splits)
      then show ?thesis
        using Cons.IH [OF cb inrest dist Cons.prems(4)] Inr by simp
    qed
  qed
qed

text \<open>
  Claim C1. Take a source with a callback registered and servables of distinct names,
  one of them with a base path whose listing succeeds. A poll appends to the log exactly
  one report for that servable, made to the registered callback. The report is the empty
  list when no child's name parses as a number. Otherwise it is the one version whose
  number is the largest that any child's name parses to, with the path of a child of
  that number under the base path. Children whose names do not parse have no part in
  it, and the poll has no error to return for them.
\<close>

theorem PollFileSystemAndInvokeCallback_aspires_latest_version:
  assumes "aspired_versions_callback src = Some callback"
    and "servable \<in> set (servables (config src))"
    and "distinct (map servable_name (servables (config src)))"
    and "get_children (base_path servable) = Inr children"
  shows "\<exists>log versions.
           invocations (PollFileSystemAndInvokeCallback get_children src) = invocations src @ log
         \<and> reported (servable_name servable) log = [(callback, versions)]
         \<and> ((\<forall>child\<in>set children. ParseVersionNumber child = None) \<longrightarrow> versions = [])
         \<and> ((\<exists>child\<in>set children. ParseVersionNumber child \<noteq> None) \<longrightarrow>
              (\<exists>child\<in>set children. \<exists>v.
                  ParseVersionNumber child = Some v
                \<and> (\<forall>other\<in>set children. \<forall>w. ParseVersionNumber other = Some w \<longrightarrow> w \<le> v)
                \<and> versions = [\<lparr> aspired_servable_name = servable_name servable,
                                 version_number = v,
                                 storage_path = JoinPath (base_path servable) child \<rparr>]))"
proof -
  let ?versions = "AspireLatestVersion (servable_name servable) (base_path servable) children"
  obtain log where log:
    "invocations (PollFileSystemAndInvokeCallback get_children src) = invocations src @ log"
    unfolding PollFileSystemAndInvokeCallback_def using PollServables_extends_log by blast
  have "reported (servable_name servable)
          (invocations (PollFileSystemAndInvokeCallback get_children src))
        = reported (servable_name servable) (invocations src) @ [(callback, ?versions)]"
    unfolding PollFileSystemAndInvokeCallback_def
    using assms by (rule PollServables_reports)
  with log have one: "reported (servable_name servable) log = [(callback, ?versions)]"
    by (simp add: reported_append)
  have none: "(\<forall>child\<in>set children. ParseVersionNumber child = None) \<longrightarrow> ?versions = []"
    using AspireLatestVersion_none by blast
  have some: "(\<exists>child\<in>set children. ParseVersionNumber child \<noteq> None) \<longrightarrow>
              (\<exists>child\<in>set children. \<exists>v.
                  ParseVersionNumber child = Some v
                \<and> (\<forall>other\<in>set children. \<forall>w. ParseVersionNumber other = Some w \<longrightarrow> w \<le> v)
                \<and> ?versions = [\<lparr> aspired_servable_name = servable_name servable,
                                 version_number = v,
                                 storage_path = JoinPath (base_path servable) child \<rparr>])"
    using AspireLatestVersion_some by blast
  from log one none some show ?thesis by blast
qed


lemma ParseVersionNumber_examples:
  "ParseVersionNumber ''1'' = Some 1"
  "ParseVersionNumber ''2'' = Some 2"
  "ParseVersionNumber ''10'' = Some 10"
  "ParseVersionNumber ''abc'' = None"
  "ParseVersionNumber ''tmp'' = None"
  "ParseVersionNumber ''readme'' = None"
  by (simp_all add: ParseVersionNumber_def digit_value_def)

lemma example_config_simps:
  "servables (example_config monitored period)
     = map (\<lambda>(name, base). \<lparr> servable_name = name, base_path = base \<rparr>) monitored"
  "file_system_poll_wait_seconds (example_config monitored period) = period"
  by (simp_all add: example_config_def)

theorem PollFileSystemAndInvokeCallback_aspires_latest_version_witness:
  "(\<exists>log. invocations (PollFileSystemAndInvokeCallback example_file_system
             (example_source
                (example_config [(''foo'', ''/models/foo''), (''bar'', ''/models/bar'')] 1)
                (Some 7) None)) = [] @ log
         \<and> reported ''foo'' log
              = [(7, [\<lparr> aspired_servable_name = ''foo'', version_number = 10,
                        storage_path = ''/models/foo/10'' \<rparr>])])
   \<and> (\<exists>log. invocations (PollFileSystemAndInvokeCallback example_file_system
             (example_source
                (example_config [(''foo'', ''/models/foo''), (''bar'', ''/models/bar'')] 1)
                (Some 7) None)) = [] @ log
         \<and> reported ''bar'' log = [(7, [])])"
proof -
  let ?src = "example_source
      (example_config [(''foo'', ''/models/foo''), (''bar'', ''/models/bar'')] 1) (Some 7) None"
  let ?foo = "\<lparr> servable_name = ''foo'', base_path = ''/models/foo'' \<rparr>"
  let ?bar = "\<lparr> servable_name = ''bar'', base_path = ''/models/bar'' \<rparr>"
  have cb: "aspired_versions_callback ?src = Some 7"
    by (simp add: example_source_simps)
  have foo: "?foo \<in> set (servables (config ?src))" and bar: "?bar \<in> set (servables (config ?src))"
    by (simp_all add: example_source_simps example_config_simps)
  have dist: "distinct (map servable_name (servables (config ?src)))"
    by (simp add: example_source_simps example_config_simps)
  have foo_children: "example_file_system (base_path ?foo) = Inr [''1'', ''2'', ''abc'', ''10'']"
    and bar_children: "example_file_system (base_path ?bar) = Inr [''tmp'', ''readme'']"
    by (simp_all add: example_file_system_def)
  from PollFileSystemAndInvokeCallback_aspires_latest_version
    [where get_children = example_file_system and servable = ?foo, OF cb foo dist foo_children]
  have first: "\<exists>log. invocations (PollFileSystemAndInvokeCallback example_file_system ?src) = [] @ log
         \<and> reported ''foo'' log
              = [(7, [\<lparr> aspired_servable_name = ''foo'', version_number = 10,
                        storage_path = ''/models/foo/10'' \<rparr>])]"
    by (auto simp add: example_source_simps ParseVersionNumber_examples JoinPath_def)
  from PollFileSystemAndInvokeCallback_aspires_latest_version
    [where get_children = example_file_system and servable = ?bar, OF cb bar dist bar_children]
  have second: "\<exists>log. invocations (PollFileSystemAndInvokeCallback example_file_system ?src) = [] @ log
         \<and> reported ''bar'' log = [(7, [])]"
    by (auto simp add: example_source_simps ParseVersionNumber_examples)
  from first second show ?thesis by blast
qed

text \<open>
  A whole poll on an example: two servables are listed, the third listing fails and is
  skipped; a notifier, when set, follows every report.
\<close>

lemma PollFileSystemAndInvokeCallback_example:
  "invocations (PollFileSystemAndInvokeCallback example_file_system
     (example_source
        (example_config [(''foo'', ''/models/foo''), (''bar'', ''/models/bar''), (''baz'', ''/nowhere'')] 1)
        (Some 7) (Some 9)))
   = [CallbackInvoked 7 ''foo'' [\<lparr> aspired_servable_name = ''foo'', version_number = 10,
                                   storage_path = ''/models/foo/10'' \<rparr>],
      NotifierInvoked 9,
      CallbackInvoked 7 ''bar'' [],
      NotifierInvoked 9]"
  by (simp add: PollFileSystemAndInvokeCallback_def example_source_def example_config_def
      example_file_system_def CallAspiredVersionsCallback_def AspireLatestVersion_def
      ParseVersionNumber_examples JoinPath_def Let_def)

subsection \<open>Reconfiguration\<close>

lemma UnaspireServables_frame:
  "config (UnaspireServables names src) = config src"
  "aspired_versions_callback (UnaspireServables names src) = aspired_versions_callback src"
  "aspired_versions_callback_notifier (UnaspireServables names src)
     = aspired_versions_callback_notifier src"
  "fs_polling_thread (UnaspireServables names src) = fs_polling_thread src"
  unfolding UnaspireServables_def
  by (induction names arbitrary: src) (simp_all add: CallAspiredVersionsCallback_frame)

lemma UnaspireServables_unset:
  "aspired_versions_callback src = None \<Longrightarrow> UnaspireServables names src = src"
  unfolding UnaspireServables_def
  by (induction names) (simp_all add: CallAspiredVersionsCallback_unset)

lemma UnaspireServables_extends_log:
  "\<exists>log. invocations (UnaspireServables names src) = invocations src @ log"
  unfolding UnaspireServables_def
proof (induction names arbitrary: src)
  case Nil
  show ?case by simp
next
  case (Cons name names)
  obtain entries where
    "invocations (CallAspiredVersionsCallback name [] src) = invocations src @ entries"
    using CallAspiredVersionsCallback_log by blast
  moreover obtain log where
    "invocations (fold (\<lambda>name. CallAspiredVersionsCallback name [])
        names (CallAspiredVersionsCallback name [] src))
     = invocations (CallAspiredVersionsCallback name [] src) @ log"
    using Cons.IH by blast
  ultimately show ?case by simp
qed

lemma UnaspireServables_reports:
  assumes "aspired_versions_callback src = Some callback" and "distinct names"
  shows "reported name (invocations (UnaspireServables names src))
           = reported name (invocations src) @ (if name \<in> set names then [(callback, [])] else [])"
  using assms unfolding UnaspireServables_def
proof (induction names arbitrary: src)
  case Nil
  show ?case by simp
next
  case (Cons first names)
  let ?called = "CallAspiredVersionsCallback first [] src"
  have cb: "aspired_versions_callback ?called = Some callback"
    using Cons.prems(1) by (simp add: CallAspiredVersionsCallback_frame)
  have one: "reported name (invocations ?called)
               = reported name (invocations src) @ (if first = name then [(callback, [])] else [])"
    using Cons.prems(1)
    by (simp add: CallAspiredVersionsCallback_set reported_append split: option.splits)
  from Cons.prems(2) have dist: "distinct names" and fresh: "first \<notin> set names"
    by simp_all
  show ?case
    using Cons.IH [OF cb dist] one fresh by auto
qed

lemma GetDeletedServables_set:
  "set (GetDeletedServables old_config new_config)
     = {name \<in> set (map servable_name (servables old_config)).
          name \<notin> set (map servable_name (servables new_config))}"
  by (auto simp add: GetDeletedServables_def)

lemma GetDeletedServables_distinct: "distinct (GetDeletedServables old_config new_config)"
  by (simp add: GetDeletedServables_def)




text \<open>
  Claim C3, as amended. Take a source with a callback registered and a new configuration
  with the same polling period. The call of \<^verbatim>\<open>UpdateConfig\<close> succeeds, and for every
  servable of the old configuration that the new one lacks, the log grows during the
  call by exactly one report for it, the empty list, made to the registered callback.
  Whatever a later poll appends comes after that report, and holds no report for the
  removed servable.
\<close>

theorem UpdateConfig_unaspires_removed_servable:
  assumes "aspired_versions_callback src = Some callback"
    and "file_system_poll_wait_seconds new_config = file_system_poll_wait_seconds (config src)"
    and "name \<in> set (map servable_name (servables (config src)))"
    and "name \<notin> set (map servable_name (servables new_config))"
  shows "fst (UpdateConfig new_config src) = Status_OK
       \<and> (\<exists>log. invocations (snd (UpdateConfig new_config src)) = invocations src @ log
             \<and> reported name log = [(callback, [])]
             \<and> (\<forall>get_children. \<exists>later.
                   invocations (PollFileSystemAndInvokeCallback get_children
                                  (snd (UpdateConfig new_config src)))
                     = invocations src @ log @ later
                 \<and> reported name later = []))"
proof -
  let ?deleted = "GetDeletedServables (config src) new_config"
  let ?updated = "(UnaspireServables ?deleted src)\<lparr> config := new_config \<rparr>"
  have result: "UpdateConfig new_config src = (Status_OK, ?updated)"
    using assms(2) by (simp add: UpdateConfig_def)
  obtain log where log: "invocations (UnaspireServables ?deleted src) = invocations src @ log"
    using UnaspireServables_extends_log by blast
  have deleted: "name \<in> set ?deleted"
    using assms(3,4) by (simp add: GetDeletedServables_set)
  have "reported name (invocations (UnaspireServables ?deleted src))
          = reported name (invocations src) @ [(callback, [])]"
    using UnaspireServables_reports [OF assms(1) GetDeletedServables_distinct, of name _ new_config]
      deleted by simp
  with log have one: "reported name log = [(callback, [])]"
    by (simp add: reported_append)
  have after: "\<exists>later. invocations (PollFileSystemAndInvokeCallback get_children ?updated)
                          = invocations src @ log @ later \<and> reported name later = []"
    for get_children
  proof -
    obtain later where later:
      "invocations (PollServables get_children (servables new_config) ?updated)
         = invocations ?updated @ later"
      using PollServables_extends_log by blast
    have "reported name (invocations (PollServables get_children (servables new_config) ?updated))
            = reported name (invocations ?updated)"
      using assms(4) by (rule PollServables_not_monitored)
    with later have "reported name later = []"
      by (simp add: reported_append)
    with later log show ?thesis
      by (simp add: PollFileSystemAndInvokeCallback_def)
  qed
  from result log one after show ?thesis by auto
qed

theorem UpdateConfig_unaspires_removed_servable_witness:
  "fst (UpdateConfig (example_config [(''bar'', ''/models/bar'')] 1)
          (example_source
             (example_config [(''foo'', ''/models/foo''), (''bar'', ''/models/bar'')] 1)
             (Some 7) None)) = Status_OK
   \<and> invocations (snd (UpdateConfig (example_config [(''bar'', ''/models/bar'')] 1)
          (example_source
             (example_config [(''foo'', ''/models/foo''), (''bar'', ''/models/bar'')] 1)
             (Some 7) None))) = [CallbackInvoked 7 ''foo'' []]"
proof -
  let ?new = "example_config [(''bar'', ''/models/bar'')] 1"
  let ?src = "example_source
      (example_config [(''foo'', ''/models/foo''), (''bar'', ''/models/bar'')] 1) (Some 7) None"
  have cb: "aspired_versions_callback ?src = Some 7"
    by (simp add: example_source_simps)
  have same: "file_system_poll_wait_seconds ?new = file_system_poll_wait_seconds (config ?src)"
    by (simp add: example_source_simps example_config_simps)
  have before: "''foo'' \<in> set (map servable_name (servables (config ?src)))"
    by (simp add: example_source_simps example_config_simps)
  have gone: "''foo'' \<notin> set (map servable_name (servables ?new))"
    by (simp add: example_config_simps)
  have log: "invocations (snd (UpdateConfig ?new ?src)) = [CallbackInvoked 7 ''foo'' []]"
    by (simp add: UpdateConfig_def UnaspireServables_def GetDeletedServables_def
        CallAspiredVersionsCallback_def example_source_def example_config_def Let_def)
  from UpdateConfig_unaspires_removed_servable [OF cb same before gone] log
  show ?thesis by simp
qed

text \<open>
  Claim C3 as stated fails on two calls that drop the servable \<open>foo\<close>: one made while no
  callback is registered, one that also changes the polling period after a callback has
  been registered. Neither reports anything for \<open>foo\<close>.
\<close>

theorem UpdateConfig_no_notification_counterexample:
  "''foo'' \<in> set (map servable_name (servables (example_config [(''foo'', ''/models/foo'')] 1)))
   \<and> ''foo'' \<notin> set (map servable_name (servables (example_config [] 1)))
   \<and> reported ''foo'' (invocations (snd (UpdateConfig (example_config [] 1)
        (example_source (example_config [(''foo'', ''/models/foo'')] 1) None None)))) = []
   \<and> ''foo'' \<notin> set (map servable_name (servables (example_config [] 30)))
   \<and> reported ''foo'' (invocations (snd (UpdateConfig (example_config [] 30)
        (example_source (example_config [(''foo'', ''/models/foo'')] 1) (Some 7) None)))) = []"
  by (simp add: UpdateConfig_def UnaspireServables_def GetDeletedServables_def
      CallAspiredVersionsCallback_def example_source_def example_config_def Let_def)

end
